theory Spec2Isabelle
  imports Main
begin

section \<open>JavaScript values\<close>

text \<open>
  The hook \<^verbatim>\<open>useMMKVDevTools\<close> passes JavaScript values around: handler results of
  type \<^verbatim>\<open>any\<close>, thrown values of type \<^verbatim>\<open>unknown\<close>, and the payloads given to
  \<^verbatim>\<open>client.sendMessage\<close>. Numbers are doubles; the model keeps the three
  non-finite values apart, writes an integer-valued double (a safe integer) as
  \<open>IntNum\<close>, and any other finite double as \<open>DecNum\<close> of the decimal text that
  \<^verbatim>\<open>String\<close> prints for it.
\<close>

datatype jsnum = NaN | PosInfinity | NegInfinity | IntNum int | DecNum string

datatype jsval =
    Undefined
  | Null
  | Bool bool
  | Num jsnum
  | Str string
  | Arr "jsval list"
  | Obj "(string \<times> jsval) list"
  | ErrorObj string "string option"

text \<open>\<open>ErrorObj m s\<close> is an instance of \<^verbatim>\<open>Error\<close> with \<^verbatim>\<open>message\<close> \<open>m\<close> and
  \<^verbatim>\<open>stack\<close> \<open>s\<close> (\<open>None\<close> when the engine gives none).\<close>

fun instanceof_Error :: "jsval \<Rightarrow> bool" where
  "instanceof_Error (ErrorObj m s) = True"
| "instanceof_Error v = False"

fun error_message :: "jsval \<Rightarrow> string" where
  "error_message (ErrorObj m s) = m"
| "error_message v = []"

fun error_stack :: "jsval \<Rightarrow> jsval" where
  "error_stack (ErrorObj m (Some t)) = Str t"
| "error_stack v = Undefined"

definition isNaN :: "jsnum \<Rightarrow> bool" where
  "isNaN n = (n = NaN)"

definition isFinite :: "jsnum \<Rightarrow> bool" where
  "isFinite n = (n \<noteq> NaN \<and> n \<noteq> PosInfinity \<and> n \<noteq> NegInfinity)"

fun nat_digits :: "nat \<Rightarrow> string" where
  "nat_digits n =
     (if n < 10 then [''0123456789'' ! n]
      else nat_digits (n div 10) @ [''0123456789'' ! (n mod 10)])"

declare nat_digits.simps [simp del]

fun number_to_string :: "jsnum \<Rightarrow> string" where
  "number_to_string NaN = ''NaN''"
| "number_to_string PosInfinity = ''Infinity''"
| "number_to_string NegInfinity = ''-Infinity''"
| "number_to_string (IntNum i) =
     (if i < 0 then ''-'' @ nat_digits (nat (- i)) else nat_digits (nat i))"
| "number_to_string (DecNum s) = s"

fun boolean_to_string :: "bool \<Rightarrow> string" where
  "boolean_to_string True = ''true''"
| "boolean_to_string False = ''false''"

fun join_comma :: "string list \<Rightarrow> string" where
  "join_comma [] = []"
| "join_comma [s] = s"
| "join_comma (s # t # ts) = s @ '','' @ join_comma (t # ts)"

text \<open>The builtin \<^verbatim>\<open>String(v)\<close>.\<close>

fun js_String :: "jsval \<Rightarrow> string" where
  "js_String Undefined = ''undefined''"
| "js_String Null = ''null''"
| "js_String (Bool b) = boolean_to_string b"
| "js_String (Num n) = number_to_string n"
| "js_String (Str s) = s"
| "js_String (Arr xs) =
     join_comma (map (\<lambda>x. if x = Undefined \<or> x = Null then [] else js_String x) xs)"
| "js_String (Obj fs) = ''[object Object]''"
| "js_String (ErrorObj m s) = (if m = [] then ''Error'' else ''Error: '' @ m)"

text \<open>The operator \<^verbatim>\<open>a ?? b\<close>.\<close>

definition nullish_coalesce :: "jsval \<Rightarrow> jsval \<Rightarrow> jsval" where
  "nullish_coalesce a b = (if a = Undefined \<or> a = Null then b else a)"

section \<open>The surroundings of the hook\<close>

text \<open>
  What the hook calls and cannot see into: the caller's \<^verbatim>\<open>errorHandler\<close> (optional),
  \<^verbatim>\<open>client.sendMessage\<close>, and \<^verbatim>\<open>remove\<close> of the subscription that
  \<^verbatim>\<open>client.addMessageListener\<close> returned for an event name. Each of them either
  returns (\<open>None\<close>) or throws a value (\<open>Some e\<close>). \<open>stack_trace\<close> is the stack the
  engine attaches to an \<^verbatim>\<open>Error\<close> constructed in \<^verbatim>\<open>handleError\<close>.
\<close>

record env =
  errorHandler :: "(jsval \<Rightarrow> jsval option) option"
  sendMessage :: "string \<Rightarrow> jsval \<Rightarrow> jsval option"
  sub_remove :: "string \<Rightarrow> jsval option"
  stack_trace :: "string option"

text \<open>The calls the hook makes, in the order it makes them.\<close>

datatype event =
    Invoked string
  | SendMessage string jsval
  | ErrorHandler jsval
  | Removed string

record params =
  p_key :: "string option"
  p_value :: "string option"

text \<open>
  The parameters of a message, an object as the listener's signature
  \<^verbatim>\<open>{ key?: string; value?: string }\<close> has it; a missing field is \<open>None\<close>.
  A listener reads and writes the store and resolves (\<open>Inr\<close>) or rejects (\<open>Inl\<close>).
\<close>

type_synonym 's listener = "params \<Rightarrow> 's \<Rightarrow> (jsval + jsval) \<times> 's"

section \<open>handleError\<close>

definition new_Error :: "env \<Rightarrow> string \<Rightarrow> jsval" where
  "new_Error env msg = ErrorObj msg (stack_trace env)"

definition to_Error :: "env \<Rightarrow> jsval \<Rightarrow> jsval" where
  "to_Error env error =
     (if instanceof_Error error then error else new_Error env (js_String error))"

definition handleError :: "env \<Rightarrow> jsval \<Rightarrow> event list \<times> jsval option" where
  "handleError env error =
     (let err = to_Error env error
      in case errorHandler env of
           None \<Rightarrow> ([], None)
         | Some h \<Rightarrow> ([ErrorHandler err], h err))"

section \<open>The wrapper on\<close>

definition ack_channel :: "string \<Rightarrow> string" where
  "ack_channel event = ''ack:'' @ event"

definition ack_payload :: "jsval \<Rightarrow> jsval" where
  "ack_payload result = Obj [(''result'', nullish_coalesce result (Bool True))]"

definition error_payload :: "jsval \<Rightarrow> jsval" where
  "error_payload error =
     (if instanceof_Error error
      then Obj [(''message'', Str (error_message error)), (''stack'', error_stack error)]
      else Obj [(''message'', Str (js_String error))])"

text \<open>
  The \<^verbatim>\<open>catch\<close> block of \<^verbatim>\<open>on\<close>: the error payload is sent inside
  \<^verbatim>\<open>try\<close>, \<^verbatim>\<open>handleError\<close> runs in \<^verbatim>\<open>finally\<close>. What the block throws is
  what \<^verbatim>\<open>finally\<close> throws, else what the send threw.
\<close>

definition on_catch :: "env \<Rightarrow> jsval \<Rightarrow> event list \<times> jsval option" where
  "on_catch env error =
     (let err = error_payload error;
          sent = sendMessage env ''error'' err;
          (t, thrown) = handleError env error
      in (SendMessage ''error'' err # t,
          case thrown of Some e \<Rightarrow> Some e | None \<Rightarrow> sent))"

text \<open>
  The listener that \<^verbatim>\<open>on\<close> registers. The acknowledgement is sent inside the
  \<^verbatim>\<open>try\<close> block, so a throwing \<^verbatim>\<open>sendMessage\<close> there enters \<^verbatim>\<open>catch\<close> too.
\<close>

definition on :: "env \<Rightarrow> string \<Rightarrow> 's listener \<Rightarrow> params \<Rightarrow> 's
    \<Rightarrow> (event list \<times> jsval option) \<times> 's" where
  "on env event listener ps st =
     (case listener ps st of
        (Inr result, st') \<Rightarrow>
          (case sendMessage env (ack_channel event) (ack_payload result) of
             None \<Rightarrow>
               (([Invoked event, SendMessage (ack_channel event) (ack_payload result)], None), st')
           | Some error \<Rightarrow>
               (let (t, thrown) = on_catch env error
                in ((Invoked event # SendMessage (ack_channel event) (ack_payload result) # t,
                     thrown), st')))
      | (Inl error, st') \<Rightarrow>
          (let (t, thrown) = on_catch env error
           in ((Invoked event # t, thrown), st')))"

section \<open>The store and the three handlers\<close>

text \<open>
  The store is used through six operations, typed as react-native-mmkv declares them;
  \<^verbatim>\<open>getAllKeys()\<close> may be nullish (\<^verbatim>\<open>?? []\<close>) and \<^verbatim>\<open>getNumber\<close>,
  \<^verbatim>\<open>getBoolean\<close> may be missing from the object (\<^verbatim>\<open>?.\<close>). A store operation
  that throws makes the listener reject, which \<open>on\<close> covers for every listener.
\<close>

record 's storage =
  getAllKeys :: "'s \<Rightarrow> string list option"
  getString :: "'s \<Rightarrow> string \<Rightarrow> string option"
  getNumber :: "('s \<Rightarrow> string \<Rightarrow> jsnum option) option"
  getBoolean :: "('s \<Rightarrow> string \<Rightarrow> bool option) option"
  storage_set :: "'s \<Rightarrow> string \<Rightarrow> string \<Rightarrow> 's"
  storage_remove :: "'s \<Rightarrow> string \<Rightarrow> 's"

definition optional_call :: "('s \<Rightarrow> string \<Rightarrow> 'a option) option \<Rightarrow> 's \<Rightarrow> string \<Rightarrow> 'a option" where
  "optional_call f st k = (case f of None \<Rightarrow> None | Some g \<Rightarrow> g st k)"

text \<open>The body of \<^verbatim>\<open>keys.map\<close> in the getAll handler.\<close>

definition read_entry :: "'s storage \<Rightarrow> 's \<Rightarrow> string \<Rightarrow> string \<times> string option" where
  "read_entry api st k =
     (case getString api st k of
        Some s \<Rightarrow> (k, Some s)
      | None \<Rightarrow>
          (case optional_call (getNumber api) st k of
             Some n \<Rightarrow>
               if \<not> isNaN n then (k, Some (number_to_string n))
               else (case optional_call (getBoolean api) st k of
                       Some b \<Rightarrow> (k, Some (boolean_to_string b))
                     | None \<Rightarrow> (k, None))
           | None \<Rightarrow>
               (case optional_call (getBoolean api) st k of
                  Some b \<Rightarrow> (k, Some (boolean_to_string b))
                | None \<Rightarrow> (k, None))))"

definition getAll_entries :: "'s storage \<Rightarrow> 's \<Rightarrow> (string \<times> string option) list" where
  "getAll_entries api st =
     map (read_entry api st) (case getAllKeys api st of None \<Rightarrow> [] | Some ks \<Rightarrow> ks)"

fun entry_value :: "string \<times> string option \<Rightarrow> jsval" where
  "entry_value (k, Some s) = Arr [Str k, Str s]"
| "entry_value (k, None) = Arr [Str k, Undefined]"

definition getAll_listener :: "'s storage \<Rightarrow> 's listener" where
  "getAll_listener api ps st = (Inr (Arr (map entry_value (getAll_entries api st))), st)"

definition set_listener :: "'s storage \<Rightarrow> 's listener" where
  "set_listener api ps st =
     (case (p_key ps, p_value ps) of
        (Some k, Some v) \<Rightarrow> (Inr (Bool True), storage_set api st k v)
      | _ \<Rightarrow> (Inr (Bool False), st))"

definition remove_listener :: "'s storage \<Rightarrow> 's listener" where
  "remove_listener api ps st =
     (case p_key ps of
        Some k \<Rightarrow> (Inr (Bool True), storage_remove api st k)
      | None \<Rightarrow> (Inr (Bool False), st))"

section \<open>Activation, delivery, teardown\<close>

text \<open>The three \<^verbatim>\<open>subscriptions.push(on(...))\<close> calls of the effect, in order.\<close>

definition registry :: "'s storage \<Rightarrow> (string \<times> 's listener) list" where
  "registry api =
     [(''getAll'', getAll_listener api),
      (''set'', set_listener api),
      (''remove'', remove_listener api)]"

text \<open>The effect returns at once without a client; else it records one subscription
  for each registered event.\<close>

definition subscriptions :: "bool \<Rightarrow> 's storage \<Rightarrow> string list" where
  "subscriptions has_client api = (if has_client then map fst (registry api) else [])"

text \<open>
  Modelled from the spec: the transport is the imported \<^verbatim>\<open>expo/devtools\<close> client,
  whose code is not in the repository. Section 1 of the specification gives it the
  primitive \<^verbatim>\<open>addListener(name, handler)\<close>; section 4.2 has no message dispatched to
  more than one handler and no handler invoked for a method name it is not bound to.
  The transport is the table of the listeners added, in the order they were added; an
  inbound message goes to the listener bound to its name, and nowhere when none is.
\<close>

type_synonym 's wrapped = "params \<Rightarrow> 's \<Rightarrow> (event list \<times> jsval option) \<times> 's"

type_synonym 's transport = "(string \<times> 's wrapped) list"

definition addMessageListener :: "'s transport \<Rightarrow> string \<Rightarrow> 's wrapped \<Rightarrow> 's transport" where
  "addMessageListener t name w = t @ [(name, w)]"

definition receive :: "'s transport \<Rightarrow> string \<Rightarrow> params \<Rightarrow> 's
    \<Rightarrow> (event list \<times> jsval option) \<times> 's" where
  "receive t name ps st =
     (case map_of t name of
        None \<Rightarrow> (([], None), st)
      | Some w \<Rightarrow> w ps st)"

text \<open>
  The effect with a client: each \<^verbatim>\<open>on(event, listener)\<close> passes the wrapped
  listener to \<^verbatim>\<open>client.addMessageListener\<close> under the name \<^verbatim>\<open>event\<close>, for
  \<open>getAll\<close>, \<open>set\<close> and \<open>remove\<close> in this order.
\<close>

definition activate :: "env \<Rightarrow> 's storage \<Rightarrow> 's transport \<Rightarrow> 's transport" where
  "activate env api t =
     addMessageListener
       (addMessageListener
          (addMessageListener t ''getAll'' (on env ''getAll'' (getAll_listener api)))
          ''set'' (on env ''set'' (set_listener api)))
       ''remove'' (on env ''remove'' (remove_listener api))"

text \<open>
  The cleanup function of the effect. An exception that leaves the \<^verbatim>\<open>catch\<close>
  block (thrown by the caller's \<^verbatim>\<open>errorHandler\<close>) leaves the loop.
\<close>

fun cleanup :: "env \<Rightarrow> string list \<Rightarrow> event list \<times> jsval option" where
  "cleanup env [] = ([], None)"
| "cleanup env (sub # subs) =
     (case sub_remove env sub of
        None \<Rightarrow> (let (t, thrown) = cleanup env subs in (Removed sub # t, thrown))
      | Some e \<Rightarrow>
          (case handleError env e of
             (t1, Some e') \<Rightarrow> (Removed sub # t1, Some e')
           | (t1, None) \<Rightarrow>
               (let (t, thrown) = cleanup env subs in (Removed sub # t1 @ t, thrown))))"

section \<open>A typed store\<close>

text \<open>
  Modelled from the spec: the key-value store is not part of the repository; its data
  model (section 3, Store entry) maps a key to exactly one of a string, a number or a
  boolean, and each typed read answers only for a value of its own type. Keys are
  enumerated in the order of the list.
\<close>

datatype stored = StoredString string | StoredNumber jsnum | StoredBoolean bool

type_synonym store = "(string \<times> stored) list"

fun store_put :: "store \<Rightarrow> string \<Rightarrow> stored \<Rightarrow> store" where
  "store_put [] k v = [(k, v)]"
| "store_put ((k', v') # st) k v =
     (if k' = k then (k, v) # st else (k', v') # store_put st k v)"

fun store_delete :: "store \<Rightarrow> string \<Rightarrow> store" where
  "store_delete [] k = []"
| "store_delete ((k', v') # st) k =
     (if k' = k then store_delete st k else (k', v') # store_delete st k)"

fun as_string :: "stored option \<Rightarrow> string option" where
  "as_string (Some (StoredString s)) = Some s"
| "as_string v = None"

fun as_number :: "stored option \<Rightarrow> jsnum option" where
  "as_number (Some (StoredNumber n)) = Some n"
| "as_number v = None"

fun as_boolean :: "stored option \<Rightarrow> bool option" where
  "as_boolean (Some (StoredBoolean b)) = Some b"
| "as_boolean v = None"

definition typed_store :: "store storage" where
  "typed_store =
     \<lparr> getAllKeys = (\<lambda>st. Some (map fst st)),
       getString = (\<lambda>st k. as_string (map_of st k)),
       getNumber = Some (\<lambda>st k. as_number (map_of st k)),
       getBoolean = Some (\<lambda>st k. as_boolean (map_of st k)),
       storage_set = (\<lambda>st k v. store_put st k (StoredString v)),
       storage_remove = store_delete \<rparr>"

section \<open>Reading a trace\<close>

fun payloads_on :: "string \<Rightarrow> event list \<Rightarrow> jsval list" where
  "payloads_on ch [] = []"
| "payloads_on ch (SendMessage c p # t) =
     (if c = ch then p # payloads_on ch t else payloads_on ch t)"
| "payloads_on ch (x # t) = payloads_on ch t"

fun removed :: "event list \<Rightarrow> string list" where
  "removed [] = []"
| "removed (Removed s # t) = s # removed t"
| "removed (x # t) = removed t"

fun callback_args :: "event list \<Rightarrow> jsval list" where
  "callback_args [] = []"
| "callback_args (ErrorHandler x # t) = x # callback_args t"
| "callback_args (x # t) = callback_args t"

text \<open>What \<^verbatim>\<open>handleError\<close> adds to the trace: one call of the callback when the
  caller gave one.\<close>

definition callback_events :: "env \<Rightarrow> jsval \<Rightarrow> event list" where
  "callback_events env error =
     (case errorHandler env of None \<Rightarrow> [] | Some h \<Rightarrow> [ErrorHandler (to_Error env error)])"

section \<open>Sample surroundings\<close>

definition returns :: "jsval \<Rightarrow> jsval option" where
  "returns x = None"

definition rethrows :: "jsval \<Rightarrow> jsval option" where
  "rethrows x = Some x"

definition send_ok :: "string \<Rightarrow> jsval \<Rightarrow> jsval option" where
  "send_ok ch p = None"

definition send_ack_set_fails :: "string \<Rightarrow> jsval \<Rightarrow> jsval option" where
  "send_ack_set_fails ch p = (if ch = ''ack:set'' then Some (Str ''socket closed'') else None)"

definition send_error_fails :: "string \<Rightarrow> jsval \<Rightarrow> jsval option" where
  "send_error_fails ch p = (if ch = ''error'' then Some (Str ''socket closed'') else None)"

definition release_ok :: "string \<Rightarrow> jsval option" where
  "release_ok sub = None"

definition release_getAll_fails :: "string \<Rightarrow> jsval option" where
  "release_getAll_fails sub = (if sub = ''getAll'' then Some (Str ''gone'') else None)"

definition quiet_env :: env where
  "quiet_env = \<lparr> errorHandler = Some returns, sendMessage = send_ok,
     sub_remove = release_ok, stack_trace = Some ''at handleError'' \<rparr>"

definition ack_fails_env :: env where
  "ack_fails_env = quiet_env \<lparr> sendMessage := send_ack_set_fails \<rparr>"

definition error_fails_env :: env where
  "error_fails_env = quiet_env \<lparr> sendMessage := send_error_fails \<rparr>"

definition release_fails_env :: env where
  "release_fails_env = quiet_env \<lparr> sub_remove := release_getAll_fails \<rparr>"

definition throwing_callback_env :: env where
  "throwing_callback_env = release_fails_env \<lparr> errorHandler := Some rethrows \<rparr>"

definition no_params :: params where
  "no_params = \<lparr> p_key = None, p_value = None \<rparr>"

definition key_only :: params where
  "key_only = \<lparr> p_key = Some ''a'', p_value = None \<rparr>"

definition key_and_value :: params where
  "key_and_value = \<lparr> p_key = Some ''a'', p_value = Some ''1'' \<rparr>"

definition rejecting :: "store listener" where
  "rejecting ps st = (Inl (Num (IntNum 7)), st)"

definition rejecting_with_Error :: "store listener" where
  "rejecting_with_Error ps st = (Inl (ErrorObj ''disk full'' (Some ''at set'')), st)"

definition resolving_undefined :: "store listener" where
  "resolving_undefined ps st = (Inr Undefined, st)"

definition sample_store :: store where
  "sample_store =
     [(''n'', StoredNumber (IntNum 42)), (''b'', StoredBoolean True),
      (''a'', StoredNumber NaN), (''s'', StoredString ''text'')]"

definition infinite_store :: store where
  "infinite_store = [(''k'', StoredNumber PosInfinity)]"

section \<open>The trace of one call\<close>

lemma handleError_events: "fst (handleError env e) = callback_events env e"
  by (simp add: handleError_def callback_events_def Let_def split: option.split)

lemma on_catch_events:
  "fst (on_catch env e) = SendMessage ''error'' (error_payload e) # callback_events env e"
  by (simp add: on_catch_def Let_def case_prod_unfold handleError_events)

lemma on_rejected:
  assumes "listener ps st = (Inl e, st')"
  shows "fst (fst (on env ev listener ps st)) =
           Invoked ev # SendMessage ''error'' (error_payload e) # callback_events env e"
  using assms by (simp add: on_def case_prod_unfold on_catch_events)

lemma on_resolved_sent:
  assumes "listener ps st = (Inr r, st')"
    and "sendMessage env (ack_channel ev) (ack_payload r) = None"
  shows "fst (on env ev listener ps st) =
           ([Invoked ev, SendMessage (ack_channel ev) (ack_payload r)], None)"
  using assms by (simp add: on_def)

lemma on_resolved_send_throws:
  assumes "listener ps st = (Inr r, st')"
    and "sendMessage env (ack_channel ev) (ack_payload r) = Some e"
  shows "fst (fst (on env ev listener ps st)) =
           Invoked ev # SendMessage (ack_channel ev) (ack_payload r)
             # SendMessage ''error'' (error_payload e) # callback_events env e"
  using assms by (simp add: on_def case_prod_unfold on_catch_events)

lemma error_not_ack_channel: "''error'' \<noteq> ack_channel ev"
  by (simp add: ack_channel_def)

lemma payloads_on_callback_events: "payloads_on ch (callback_events env e) = []"
  by (simp add: callback_events_def split: option.split)

lemma removed_callback_events: "removed (callback_events env e) = []"
  by (simp add: callback_events_def split: option.split)

lemma callback_args_callback_events:
  "callback_args (callback_events env e) =
     (case errorHandler env of None \<Rightarrow> [] | Some h \<Rightarrow> [to_Error env e])"
  by (simp add: callback_events_def split: option.split)

lemma instanceof_to_Error: "instanceof_Error (to_Error env e)"
  by (simp add: to_Error_def new_Error_def)

lemma on_ack_payloads:
  assumes "listener ps st = (Inr r, st')"
  shows "payloads_on (ack_channel ev) (fst (fst (on env ev listener ps st))) = [ack_payload r]"
proof (cases "sendMessage env (ack_channel ev) (ack_payload r)")
  case None
  with assms show ?thesis by (simp add: on_resolved_sent)
next
  case (Some e)
  with assms show ?thesis
    by (simp add: on_resolved_send_throws error_not_ack_channel payloads_on_callback_events)
qed

section \<open>Acknowledgement payload\<close>

text \<open>
  Claim C9. When a listener resolves, the one payload sent on the acknowledgement
  channel of its event is \<open>{result: true}\<close> for a result that is \<^verbatim>\<open>undefined\<close> or
  \<^verbatim>\<open>null\<close>, and \<open>{result: r}\<close> with the result \<open>r\<close> unchanged for every other
  result, \<^verbatim>\<open>false\<close> included.
\<close>

theorem ack_default_coercion:
  assumes "listener ps st = (Inr r, st')"
  shows "(r = Undefined \<or> r = Null \<longrightarrow>
            payloads_on (ack_channel ev) (fst (fst (on env ev listener ps st)))
              = [Obj [(''result'', Bool True)]])
       \<and> (r \<noteq> Undefined \<and> r \<noteq> Null \<longrightarrow>
            payloads_on (ack_channel ev) (fst (fst (on env ev listener ps st)))
              = [Obj [(''result'', r)]])"
  using assms on_ack_payloads [of listener ps st r st' ev env]
  by (auto simp add: ack_payload_def nullish_coalesce_def)

theorem ack_default_coercion_witness:
  "set_listener typed_store key_only sample_store = (Inr (Bool False), sample_store)
   \<and> payloads_on ''ack:set''
       (fst (fst (on quiet_env ''set'' (set_listener typed_store) key_only sample_store)))
     = [Obj [(''result'', Bool False)]]
   \<and> resolving_undefined no_params sample_store = (Inr Undefined, sample_store)
   \<and> payloads_on ''ack:getAll''
       (fst (fst (on quiet_env ''getAll'' resolving_undefined no_params sample_store)))
     = [Obj [(''result'', Bool True)]]"
proof -
  have h: "set_listener typed_store key_only sample_store = (Inr (Bool False), sample_store)"
    by (simp add: set_listener_def key_only_def)
  have u: "resolving_undefined no_params sample_store = (Inr Undefined, sample_store)"
    by (simp add: resolving_undefined_def)
  from h u
    ack_default_coercion [of "set_listener typed_store" key_only sample_store "Bool False"
      sample_store "''set''" quiet_env]
    ack_default_coercion [of resolving_undefined no_params sample_store Undefined
      sample_store "''getAll''" quiet_env]
  show ?thesis by (simp add: ack_channel_def)
qed

section \<open>Error payload\<close>

lemma on_error_payloads_rejected:
  assumes "listener ps st = (Inl e, st')"
  shows "payloads_on ''error'' (fst (fst (on env ev listener ps st))) = [error_payload e]"
  using assms by (simp add: on_rejected payloads_on_callback_events)

text \<open>
  Claim C6. When a listener rejects with a value \<open>e\<close>, the one payload sent on the
  channel \<open>error\<close> is \<open>{message, stack}\<close> taken from \<open>e\<close> when \<open>e\<close> is an
  \<^verbatim>\<open>Error\<close>, and \<open>{message: String(e)}\<close> with no other field when it is not.
\<close>

theorem error_payload_shape:
  assumes "listener ps st = (Inl e, st')"
  shows "(\<forall>m s. e = ErrorObj m s \<longrightarrow>
            payloads_on ''error'' (fst (fst (on env ev listener ps st)))
              = [Obj [(''message'', Str m),
                      (''stack'', case s of None \<Rightarrow> Undefined | Some t \<Rightarrow> Str t)]])
       \<and> (\<not> instanceof_Error e \<longrightarrow>
            payloads_on ''error'' (fst (fst (on env ev listener ps st)))
              = [Obj [(''message'', Str (js_String e))]])"
  using assms on_error_payloads_rejected [of listener ps st e st' env ev]
  by (auto simp add: error_payload_def split: option.split)

theorem error_payload_shape_witness:
  "rejecting key_and_value sample_store = (Inl (Num (IntNum 7)), sample_store)
   \<and> \<not> instanceof_Error (Num (IntNum 7))
   \<and> payloads_on ''error''
       (fst (fst (on quiet_env ''set'' rejecting key_and_value sample_store)))
     = [Obj [(''message'', Str ''7'')]]
   \<and> rejecting_with_Error key_and_value sample_store
       = (Inl (ErrorObj ''disk full'' (Some ''at set'')), sample_store)
   \<and> payloads_on ''error''
       (fst (fst (on quiet_env ''set'' rejecting_with_Error key_and_value sample_store)))
     = [Obj [(''message'', Str ''disk full''), (''stack'', Str ''at set'')]]"
proof -
  have h: "rejecting key_and_value sample_store = (Inl (Num (IntNum 7)), sample_store)"
    by (simp add: rejecting_def)
  have g: "rejecting_with_Error key_and_value sample_store
       = (Inl (ErrorObj ''disk full'' (Some ''at set'')), sample_store)"
    by (simp add: rejecting_with_Error_def)
  from h g
    error_payload_shape [of rejecting key_and_value sample_store "Num (IntNum 7)"
      sample_store quiet_env "''set''"]
    error_payload_shape [of rejecting_with_Error key_and_value sample_store
      "ErrorObj ''disk full'' (Some ''at set'')" sample_store quiet_env "''set''"]
  show ?thesis by (simp add: nat_digits.simps)
qed

section \<open>The trace of the teardown\<close>

lemma callback_args_append: "callback_args (a @ b) = callback_args a @ callback_args b"
  by (induction a rule: callback_args.induct) simp_all

lemma callback_events_instances:
  "\<forall>x \<in> set (callback_args (callback_events env e)). instanceof_Error x"
  by (simp add: callback_args_callback_events instanceof_to_Error split: option.split)

lemma cleanup_released:
  assumes "sub_remove env sub = None"
  shows "cleanup env (sub # subs) =
           (Removed sub # fst (cleanup env subs), snd (cleanup env subs))"
  using assms by (simp add: case_prod_unfold Let_def)

lemma cleanup_caught:
  assumes "sub_remove env sub = Some e" and "snd (handleError env e) = None"
  shows "cleanup env (sub # subs) =
           (Removed sub # callback_events env e @ fst (cleanup env subs),
            snd (cleanup env subs))"
proof -
  from assms(2) have "handleError env e = (callback_events env e, None)"
    using handleError_events [of env e] by (cases "handleError env e") simp
  with assms(1) show ?thesis by (simp add: case_prod_unfold Let_def)
qed

lemma cleanup_aborted:
  assumes "sub_remove env sub = Some e" and "snd (handleError env e) = Some e'"
  shows "cleanup env (sub # subs) = (Removed sub # callback_events env e, Some e')"
proof -
  from assms(2) have "handleError env e = (callback_events env e, Some e')"
    using handleError_events [of env e] by (cases "handleError env e") simp
  with assms(1) show ?thesis by simp
qed

lemma cleanup_callback_instances:
  "\<forall>x \<in> set (callback_args (fst (cleanup env subs))). instanceof_Error x"
proof (induction subs)
  case Nil
  show ?case by simp
next
  case (Cons sub subs)
  show ?case
  proof (cases "sub_remove env sub")
    case None
    with Cons show ?thesis by (simp add: cleanup_released del: cleanup.simps)
  next
    case (Some e)
    note rel = this
    show ?thesis
    proof (cases "snd (handleError env e)")
      case None
      with rel Cons callback_events_instances [of env e] show ?thesis
        by (auto simp add: cleanup_caught callback_args_append simp del: cleanup.simps)
    next
      case (Some e')
      with rel callback_events_instances [of env e] show ?thesis
        by (simp add: cleanup_aborted del: cleanup.simps)
    qed
  qed
qed

lemma on_callback_instances:
  "\<forall>x \<in> set (callback_args (fst (fst (on env ev listener ps st)))). instanceof_Error x"
proof -
  obtain out st' where l: "listener ps st = (out, st')" by (cases "listener ps st")
  show ?thesis
  proof (cases out)
    case (Inl e)
    with l callback_events_instances [of env e] show ?thesis by (simp add: on_rejected)
  next
    case (Inr r)
    show ?thesis
    proof (cases "sendMessage env (ack_channel ev) (ack_payload r)")
      case None
      with l Inr show ?thesis by (simp add: on_resolved_sent)
    next
      case (Some e)
      with l Inr callback_events_instances [of env e] show ?thesis
        by (simp add: on_resolved_send_throws)
    qed
  qed
qed

section \<open>The argument of the error callback\<close>

text \<open>
  Claim C10. A callback that the caller gave is called with an \<^verbatim>\<open>Error\<close>: a failure
  that is not one is wrapped into a new \<^verbatim>\<open>Error\<close> whose message is the string
  conversion of the failure, and an \<^verbatim>\<open>Error\<close> is passed on as it is. Every argument
  the callback receives, from a wrapped listener as from the teardown loop, is an
  \<^verbatim>\<open>Error\<close>.
\<close>

theorem callback_gets_Error:
  "(errorHandler env = Some h \<and> \<not> instanceof_Error e \<longrightarrow>
      fst (handleError env e) = [ErrorHandler (ErrorObj (js_String e) (stack_trace env))])
   \<and> (errorHandler env = Some h \<and> instanceof_Error e \<longrightarrow>
      fst (handleError env e) = [ErrorHandler e])
   \<and> (\<forall>x \<in> set (callback_args (fst (handleError env e))). instanceof_Error x)
   \<and> (\<forall>x \<in> set (callback_args (fst (fst (on env ev listener ps st)))). instanceof_Error x)
   \<and> (\<forall>x \<in> set (callback_args (fst (cleanup env subs))). instanceof_Error x)"
proof -
  have "\<forall>x \<in> set (callback_args (fst (handleError env e))). instanceof_Error x"
    by (simp add: handleError_events callback_events_instances)
  then show ?thesis
    using on_callback_instances [of env ev listener ps st] cleanup_callback_instances [of env subs]
    by (simp add: handleError_events callback_events_def to_Error_def new_Error_def)
qed

theorem callback_gets_Error_witness:
  "errorHandler release_fails_env = Some returns \<and> \<not> instanceof_Error (Str ''gone'')
   \<and> fst (handleError release_fails_env (Str ''gone''))
       = [ErrorHandler (ErrorObj ''gone'' (Some ''at handleError''))]
   \<and> instanceof_Error (ErrorObj ''disk full'' (Some ''at set''))
   \<and> fst (handleError release_fails_env (ErrorObj ''disk full'' (Some ''at set'')))
       = [ErrorHandler (ErrorObj ''disk full'' (Some ''at set''))]
   \<and> callback_args (fst (cleanup release_fails_env [''getAll'', ''set'', ''remove'']))
       = [ErrorObj ''gone'' (Some ''at handleError'')]
   \<and> callback_args (fst (fst (on release_fails_env ''set'' rejecting key_and_value sample_store)))
       = [ErrorObj ''7'' (Some ''at handleError'')]"
proof -
  have a: "errorHandler release_fails_env = Some returns"
    by (simp add: release_fails_env_def quiet_env_def)
  have b: "stack_trace release_fails_env = Some ''at handleError''"
    by (simp add: release_fails_env_def quiet_env_def)
  have c: "callback_args (fst (cleanup release_fails_env [''getAll'', ''set'', ''remove'']))
       = [ErrorObj ''gone'' (Some ''at handleError'')]"
    by (simp add: release_fails_env_def quiet_env_def release_getAll_fails_def handleError_def
        to_Error_def new_Error_def returns_def)
  have d: "callback_args (fst (fst (on release_fails_env ''set'' rejecting key_and_value sample_store)))
       = [ErrorObj ''7'' (Some ''at handleError'')]"
    by (simp add: on_def rejecting_def on_catch_def handleError_def to_Error_def new_Error_def
        release_fails_env_def quiet_env_def returns_def nat_digits.simps Let_def error_payload_def)
  from a b c d
    callback_gets_Error [of release_fails_env returns "Str ''gone''" "''set''" rejecting
      key_and_value sample_store "[''getAll'', ''set'', ''remove'']"]
    callback_gets_Error [of release_fails_env returns "ErrorObj ''disk full'' (Some ''at set'')"
      "''set''" rejecting key_and_value sample_store "[''getAll'', ''set'', ''remove'']"]
  show ?thesis by simp
qed

section \<open>One terminal action for each call\<close>

text \<open>
  Claim C1, as stated, at a listener that resolves while the acknowledgement cannot be
  sent: the write handler resolves with \<^verbatim>\<open>true\<close>, \<^verbatim>\<open>sendMessage\<close> throws on
  \<open>ack:set\<close>, and the call goes on to send an error payload and to call the callback.
\<close>

theorem ack_send_failure_counterexample:
  "set_listener typed_store key_and_value [] = (Inr (Bool True), [(''a'', StoredString ''1'')])
   \<and> fst (on ack_fails_env ''set'' (set_listener typed_store) key_and_value []) =
       ([Invoked ''set'',
         SendMessage ''ack:set'' (Obj [(''result'', Bool True)]),
         SendMessage ''error'' (Obj [(''message'', Str ''socket closed'')]),
         ErrorHandler (ErrorObj ''socket closed'' (Some ''at handleError''))], None)"
  by (simp add: on_def on_catch_def handleError_def to_Error_def new_Error_def Let_def
      error_payload_def ack_payload_def ack_channel_def nullish_coalesce_def
      set_listener_def typed_store_def key_and_value_def
      ack_fails_env_def quiet_env_def send_ack_set_fails_def returns_def)

text \<open>
  Claim C1, amended. The listener is called once. When it resolves and the
  acknowledgement send returns, the acknowledgement on \<open>ack:\<close>\<^emph>\<open>event\<close> is the only
  thing sent. When it rejects, or when the acknowledgement send itself throws, one error
  payload is sent on \<open>error\<close> and after that the callback (if the caller gave one) is
  called once, whatever the send on \<open>error\<close> does.
\<close>

theorem terminal_action:
  assumes "listener ps st = (out, st')"
  shows "(\<forall>r. out = Inr r \<and> sendMessage env (ack_channel ev) (ack_payload r) = None \<longrightarrow>
            fst (fst (on env ev listener ps st))
              = [Invoked ev, SendMessage (ack_channel ev) (ack_payload r)])
       \<and> (\<forall>e. out = Inl e \<longrightarrow>
            fst (fst (on env ev listener ps st))
              = [Invoked ev, SendMessage ''error'' (error_payload e)] @ callback_events env e)
       \<and> (\<forall>r e. out = Inr r \<and> sendMessage env (ack_channel ev) (ack_payload r) = Some e \<longrightarrow>
            fst (fst (on env ev listener ps st))
              = [Invoked ev, SendMessage (ack_channel ev) (ack_payload r),
                 SendMessage ''error'' (error_payload e)] @ callback_events env e)
       \<and> (\<forall>e h. errorHandler env = Some h \<longrightarrow>
            callback_events env e = [ErrorHandler (to_Error env e)])"
proof -
  have "\<forall>r. out = Inr r \<and> sendMessage env (ack_channel ev) (ack_payload r) = None \<longrightarrow>
            fst (fst (on env ev listener ps st))
              = [Invoked ev, SendMessage (ack_channel ev) (ack_payload r)]"
    using assms by (simp add: on_resolved_sent)
  moreover have "\<forall>e. out = Inl e \<longrightarrow>
            fst (fst (on env ev listener ps st))
              = [Invoked ev, SendMessage ''error'' (error_payload e)] @ callback_events env e"
    using assms by (simp add: on_rejected)
  moreover have "\<forall>r e. out = Inr r \<and> sendMessage env (ack_channel ev) (ack_payload r) = Some e \<longrightarrow>
            fst (fst (on env ev listener ps st))
              = [Invoked ev, SendMessage (ack_channel ev) (ack_payload r),
                 SendMessage ''error'' (error_payload e)] @ callback_events env e"
    using assms by (simp add: on_resolved_send_throws)
  moreover have "\<forall>e h. errorHandler env = Some h \<longrightarrow>
            callback_events env e = [ErrorHandler (to_Error env e)]"
    by (simp add: callback_events_def)
  ultimately show ?thesis by blast
qed

theorem terminal_action_witness:
  "rejecting key_and_value sample_store = (Inl (Num (IntNum 7)), sample_store)
   \<and> sendMessage error_fails_env ''error'' (Obj [(''message'', Str ''7'')])
       = Some (Str ''socket closed'')
   \<and> fst (fst (on error_fails_env ''set'' rejecting key_and_value sample_store))
       = [Invoked ''set'', SendMessage ''error'' (Obj [(''message'', Str ''7'')]),
          ErrorHandler (ErrorObj ''7'' (Some ''at handleError''))]
   \<and> fst (set_listener typed_store key_and_value sample_store) = Inr (Bool True)
   \<and> sendMessage quiet_env ''ack:set'' (Obj [(''result'', Bool True)]) = None
   \<and> fst (fst (on quiet_env ''set'' (set_listener typed_store) key_and_value sample_store))
       = [Invoked ''set'', SendMessage ''ack:set'' (Obj [(''result'', Bool True)])]
   \<and> sendMessage ack_fails_env ''ack:set'' (Obj [(''result'', Bool True)])
       = Some (Str ''socket closed'')
   \<and> fst (fst (on ack_fails_env ''set'' (set_listener typed_store) key_and_value sample_store))
       = [Invoked ''set'', SendMessage ''ack:set'' (Obj [(''result'', Bool True)]),
          SendMessage ''error'' (Obj [(''message'', Str ''socket closed'')]),
          ErrorHandler (ErrorObj ''socket closed'' (Some ''at handleError''))]"
proof -
  have h: "rejecting key_and_value sample_store = (Inl (Num (IntNum 7)), sample_store)"
    by (simp add: rejecting_def)
  have c: "errorHandler error_fails_env = Some returns"
    "errorHandler ack_fails_env = Some returns"
    by (simp_all add: error_fails_env_def ack_fails_env_def quiet_env_def)
  have s: "sendMessage error_fails_env ''error'' (Obj [(''message'', Str ''7'')])
       = Some (Str ''socket closed'')"
    by (simp add: error_fails_env_def quiet_env_def send_error_fails_def)
  have w: "set_listener typed_store key_and_value sample_store =
      (Inr (Bool True), storage_set typed_store sample_store ''a'' ''1'')"
    by (simp add: set_listener_def key_and_value_def)
  have p: "ack_payload (Bool True) = Obj [(''result'', Bool True)]"
    "ack_channel ''set'' = ''ack:set''"
    by (simp_all add: ack_payload_def nullish_coalesce_def ack_channel_def)
  have q: "sendMessage quiet_env ''ack:set'' (Obj [(''result'', Bool True)]) = None"
    by (simp add: quiet_env_def send_ok_def)
  have f: "sendMessage ack_fails_env ''ack:set'' (Obj [(''result'', Bool True)])
       = Some (Str ''socket closed'')"
    by (simp add: ack_fails_env_def send_ack_set_fails_def)
  have t: "stack_trace error_fails_env = Some ''at handleError''"
    "stack_trace ack_fails_env = Some ''at handleError''"
    by (simp_all add: error_fails_env_def ack_fails_env_def quiet_env_def)
  have r1: "fst (fst (on error_fails_env ''set'' rejecting key_and_value sample_store))
       = [Invoked ''set'', SendMessage ''error'' (Obj [(''message'', Str ''7'')]),
          ErrorHandler (ErrorObj ''7'' (Some ''at handleError''))]"
    using h c t terminal_action [of rejecting key_and_value sample_store "Inl (Num (IntNum 7))"
      sample_store error_fails_env "''set''"]
    by (simp add: error_payload_def to_Error_def new_Error_def nat_digits.simps)
  have r2: "fst (fst (on quiet_env ''set'' (set_listener typed_store) key_and_value sample_store))
       = [Invoked ''set'', SendMessage ''ack:set'' (Obj [(''result'', Bool True)])]"
    using w p q terminal_action [of "set_listener typed_store" key_and_value sample_store
      "Inr (Bool True)" "storage_set typed_store sample_store ''a'' ''1''" quiet_env "''set''"]
    by simp
  have r3: "fst (fst (on ack_fails_env ''set'' (set_listener typed_store) key_and_value sample_store))
       = [Invoked ''set'', SendMessage ''ack:set'' (Obj [(''result'', Bool True)]),
          SendMessage ''error'' (Obj [(''message'', Str ''socket closed'')]),
          ErrorHandler (ErrorObj ''socket closed'' (Some ''at handleError''))]"
    using w p f c t terminal_action [of "set_listener typed_store" key_and_value sample_store
      "Inr (Bool True)" "storage_set typed_store sample_store ''a'' ''1''" ack_fails_env "''set''"]
    by (simp add: error_payload_def to_Error_def new_Error_def)
  from h s w q f r1 r2 r3 show ?thesis by simp
qed

section \<open>Teardown\<close>

lemma removed_append: "removed (a @ b) = removed a @ removed b"
  by (induction a rule: removed.induct) simp_all

text \<open>
  Claim C7, as stated, at a callback that throws: the release of the first subscription
  throws, the callback is called and throws in turn, and the loop ends with two of the
  three recorded subscriptions never released.
\<close>

theorem teardown_counterexample:
  "subscriptions True typed_store = [''getAll'', ''set'', ''remove'']
   \<and> cleanup throwing_callback_env (subscriptions True typed_store) =
       ([Removed ''getAll'', ErrorHandler (ErrorObj ''gone'' (Some ''at handleError''))],
        Some (ErrorObj ''gone'' (Some ''at handleError'')))
   \<and> removed (fst (cleanup throwing_callback_env (subscriptions True typed_store)))
       = [''getAll'']"
  by (simp add: subscriptions_def registry_def handleError_def to_Error_def new_Error_def
      Let_def throwing_callback_env_def release_fails_env_def quiet_env_def
      release_getAll_fails_def rethrows_def)

text \<open>
  Claim C7, amended. When every call of the error callback made during the teardown
  returns (or the caller gave no callback), each recorded subscription is released once,
  in the order recorded; a release that throws is followed by the call of the callback
  with that failure and then by the releases of the remaining subscriptions; and the
  teardown itself throws nothing.
\<close>

theorem teardown_releases_all:
  assumes "\<forall>s \<in> set subs. \<forall>e. sub_remove env s = Some e \<longrightarrow> snd (handleError env e) = None"
  shows "removed (fst (cleanup env subs)) = subs
       \<and> snd (cleanup env subs) = None
       \<and> fst (cleanup env subs) =
           concat (map (\<lambda>s. Removed s #
                     (case sub_remove env s of None \<Rightarrow> [] | Some e \<Rightarrow> callback_events env e))
                   subs)"
  using assms
proof (induction subs)
  case Nil
  show ?case by simp
next
  case (Cons sub subs)
  from Cons.prems have rest:
    "\<forall>s \<in> set subs. \<forall>e. sub_remove env s = Some e \<longrightarrow> snd (handleError env e) = None"
    by simp
  note ih = Cons.IH [OF rest]
  from ih have ih1: "removed (fst (cleanup env subs)) = subs"
    and ih2: "snd (cleanup env subs) = None" by blast+
  from ih have ih3: "fst (cleanup env subs) =
           concat (map (\<lambda>s. Removed s #
                     (case sub_remove env s of None \<Rightarrow> [] | Some e \<Rightarrow> callback_events env e))
                   subs)" by blast
  show ?case
  proof (cases "sub_remove env sub")
    case None
    then have step: "cleanup env (sub # subs) =
        (Removed sub # fst (cleanup env subs), snd (cleanup env subs))"
      by (rule cleanup_released)
    have "removed (fst (cleanup env (sub # subs))) = sub # subs"
      using ih1 by (simp add: step del: cleanup.simps)
    moreover have "snd (cleanup env (sub # subs)) = None"
      using ih2 by (simp add: step del: cleanup.simps)
    moreover have "fst (cleanup env (sub # subs)) =
           concat (map (\<lambda>s. Removed s #
                     (case sub_remove env s of None \<Rightarrow> [] | Some e \<Rightarrow> callback_events env e))
                   (sub # subs))"
      using ih3 None by (simp add: step del: cleanup.simps)
    ultimately show ?thesis by blast
  next
    case (Some e)
    with Cons.prems have "snd (handleError env e) = None" by simp
    with Some have step: "cleanup env (sub # subs) =
        (Removed sub # callback_events env e @ fst (cleanup env subs), snd (cleanup env subs))"
      by (rule cleanup_caught)
    have "removed (fst (cleanup env (sub # subs))) = sub # subs"
      using ih1 by (simp add: step removed_append removed_callback_events del: cleanup.simps)
    moreover have "snd (cleanup env (sub # subs)) = None"
      using ih2 by (simp add: step del: cleanup.simps)
    moreover have "fst (cleanup env (sub # subs)) =
           concat (map (\<lambda>s. Removed s #
                     (case sub_remove env s of None \<Rightarrow> [] | Some e \<Rightarrow> callback_events env e))
                   (sub # subs))"
      using ih3 Some by (simp add: step del: cleanup.simps)
    ultimately show ?thesis by blast
  qed
qed

theorem teardown_releases_all_witness:
  "sub_remove release_fails_env ''getAll'' = Some (Str ''gone'')
   \<and> snd (handleError release_fails_env (Str ''gone'')) = None
   \<and> removed (fst (cleanup release_fails_env [''getAll'', ''set'', ''remove'']))
       = [''getAll'', ''set'', ''remove'']
   \<and> fst (cleanup release_fails_env [''getAll'', ''set'', ''remove''])
       = [Removed ''getAll'', ErrorHandler (ErrorObj ''gone'' (Some ''at handleError'')),
          Removed ''set'', Removed ''remove'']"
proof -
  have h: "\<forall>s \<in> set [''getAll'', ''set'', ''remove'']. \<forall>e.
       sub_remove release_fails_env s = Some e \<longrightarrow> snd (handleError release_fails_env e) = None"
    by (simp add: handleError_def release_fails_env_def quiet_env_def returns_def Let_def)
  have r: "sub_remove release_fails_env ''getAll'' = Some (Str ''gone'')"
    "sub_remove release_fails_env ''set'' = None"
    "sub_remove release_fails_env ''remove'' = None"
    by (simp_all add: release_fails_env_def release_getAll_fails_def)
  have c: "callback_events release_fails_env (Str ''gone'')
       = [ErrorHandler (ErrorObj ''gone'' (Some ''at handleError''))]"
    by (simp add: callback_events_def to_Error_def new_Error_def release_fails_env_def
        quiet_env_def)
  have n: "snd (handleError release_fails_env (Str ''gone'')) = None"
    by (simp add: handleError_def release_fails_env_def quiet_env_def returns_def Let_def)
  from teardown_releases_all [OF h] r c n show ?thesis
    by (simp del: cleanup.simps)
qed

section \<open>Names outside the registry\<close>

lemma map_of_added:
  "map_of (addMessageListener t name w) n =
     (case map_of t n of Some v \<Rightarrow> Some v | None \<Rightarrow> if n = name then Some w else None)"
  by (simp add: addMessageListener_def map_add_def split: option.split)

lemma names_added: "map fst (addMessageListener t name w) = map fst t @ [name]"
  by (simp add: addMessageListener_def)

lemma activate_registry:
  "activate env api t =
     foldl (\<lambda>t' (event, listener). addMessageListener t' event (on env event listener))
       t (registry api)"
  by (simp add: activate_def registry_def)

text \<open>
  Claim C8, as stated, at the name \<open>getAll\<close>: it is none of \<open>list\<close>, \<open>write\<close>,
  \<open>delete\<close>, yet the effect has bound a handler to it, which is called, and an
  acknowledgement is sent.
\<close>

theorem registered_names_counterexample:
  "''getAll'' \<notin> {''list'', ''write'', ''delete''}
   \<and> fst (receive (activate quiet_env typed_store []) ''getAll'' no_params []) =
       ([Invoked ''getAll'', SendMessage ''ack:getAll'' (Obj [(''result'', Arr [])])], None)"
  by (simp add: receive_def activate_def map_of_added on_def getAll_listener_def
      getAll_entries_def typed_store_def ack_channel_def ack_payload_def nullish_coalesce_def
      quiet_env_def send_ok_def)

text \<open>
  Claim C8, amended. The effect adds its listeners to the transport under the names
  \<open>getAll\<close>, \<open>set\<close> and \<open>remove\<close>, after whatever was bound before, and binds each
  of these names to the wrapped handler of that name. A message with any other name, to
  which nothing else was bound either, reaches no handler, sends nothing, calls nothing
  and leaves the store as it was.
\<close>

theorem unregistered_name_ignored:
  "map fst (activate env api t) = map fst t @ [''getAll'', ''set'', ''remove'']
   \<and> (name \<notin> {''getAll'', ''set'', ''remove''} \<and> name \<notin> set (map fst t) \<longrightarrow>
        receive (activate env api t) name ps st = (([], None), st))
   \<and> receive (activate env api []) ''getAll'' ps st
        = on env ''getAll'' (getAll_listener api) ps st
   \<and> receive (activate env api []) ''set'' ps st
        = on env ''set'' (set_listener api) ps st
   \<and> receive (activate env api []) ''remove'' ps st
        = on env ''remove'' (remove_listener api) ps st"
proof -
  have names: "map fst (activate env api t) = map fst t @ [''getAll'', ''set'', ''remove'']"
    by (simp add: activate_def names_added)
  have unbound: "receive (activate env api t) name ps st = (([], None), st)"
    if "name \<notin> {''getAll'', ''set'', ''remove''}" and "name \<notin> set (map fst t)"
  proof -
    from that(2) have "map_of t name = None"
      by (simp add: map_of_eq_None_iff)
    with that(1) have "map_of (activate env api t) name = None"
      by (simp add: activate_def map_of_added)
    then show ?thesis by (simp add: receive_def)
  qed
  have bound:
    "receive (activate env api []) ''getAll'' ps st = on env ''getAll'' (getAll_listener api) ps st"
    "receive (activate env api []) ''set'' ps st = on env ''set'' (set_listener api) ps st"
    "receive (activate env api []) ''remove'' ps st = on env ''remove'' (remove_listener api) ps st"
    by (simp_all add: receive_def activate_def map_of_added)
  from names unbound bound show ?thesis by blast
qed

theorem unregistered_name_ignored_witness:
  "''list'' \<notin> {''getAll'', ''set'', ''remove''}
   \<and> receive (activate quiet_env typed_store []) ''list'' no_params sample_store
       = (([], None), sample_store)
   \<and> map fst (activate quiet_env typed_store []) = [''getAll'', ''set'', ''remove'']"
  using unregistered_name_ignored [of quiet_env typed_store "[]" "''list''" no_params sample_store]
  by simp

section \<open>The typed store\<close>

lemma map_of_store_put: "map_of (store_put st k v) = (map_of st)(k \<mapsto> v)"
  by (induction st k v rule: store_put.induct) auto

lemma map_of_store_delete: "map_of (store_delete st k) = (map_of st)(k := None)"
  by (induction st k rule: store_delete.induct) auto

lemma keys_store_delete: "map fst (store_delete st k) = filter (\<lambda>x. x \<noteq> k) (map fst st)"
  by (induction st k rule: store_delete.induct) auto

lemma store_delete_absent: "map_of st k = None \<Longrightarrow> store_delete st k = st"
  by (induction st k rule: store_delete.induct) (auto split: if_splits)

lemma typed_store_ops:
  "getAllKeys typed_store st = Some (map fst st)"
  "getString typed_store st k = as_string (map_of st k)"
  "optional_call (getNumber typed_store) st k = as_number (map_of st k)"
  "optional_call (getBoolean typed_store) st k = as_boolean (map_of st k)"
  "storage_set typed_store st k v = store_put st k (StoredString v)"
  "storage_remove typed_store st k = store_delete st k"
  by (simp_all add: typed_store_def optional_call_def)

lemma entries_typed_store:
  "getAll_entries typed_store st = map (read_entry typed_store st) (map fst st)"
  by (simp add: getAll_entries_def typed_store_ops)

lemma listed_key:
  assumes "map_of st k = Some v"
  shows "read_entry typed_store st k \<in> set (getAll_entries typed_store st)"
proof -
  from assms have "k \<in> set (map fst st)"
    by (metis map_of_eq_None_iff option.distinct(1) set_map)
  then have "read_entry typed_store st k \<in> read_entry typed_store st ` set (map fst st)"
    by (rule imageI)
  then show ?thesis by (simp only: entries_typed_store set_map)
qed

section \<open>The write handler\<close>

text \<open>
  Claim C2. The write handler (registered as \<open>set\<close>) answers \<^verbatim>\<open>false\<close> and leaves the
  store alone when \<open>key\<close> or \<open>value\<close> is missing, and throws nothing. With both present
  it answers \<^verbatim>\<open>true\<close> after one \<^verbatim>\<open>storage.set(key, value)\<close>; on the typed store
  that makes the key hold the string \<open>value\<close> as given, whatever it held before, and
  leaves every other key as it was.
\<close>

theorem write_handler:
  "(p_key ps = None \<or> p_value ps = None \<longrightarrow>
      set_listener api ps st = (Inr (Bool False), st))
   \<and> (p_key ps = Some k \<and> p_value ps = Some v \<longrightarrow>
      set_listener api ps st = (Inr (Bool True), storage_set api st k v))
   \<and> map_of (storage_set typed_store s k v) = (map_of s)(k \<mapsto> StoredString v)
   \<and> getString typed_store (storage_set typed_store s k v) k = Some v
   \<and> (k, Some v) \<in> set (getAll_entries typed_store (storage_set typed_store s k v))"
proof -
  have a: "p_key ps = None \<or> p_value ps = None \<longrightarrow>
      set_listener api ps st = (Inr (Bool False), st)"
    by (auto simp add: set_listener_def split: option.split)
  have b: "p_key ps = Some k \<and> p_value ps = Some v \<longrightarrow>
      set_listener api ps st = (Inr (Bool True), storage_set api st k v)"
    by (simp add: set_listener_def)
  have c: "map_of (storage_set typed_store s k v) = (map_of s)(k \<mapsto> StoredString v)"
    by (simp add: typed_store_ops map_of_store_put)
  have d: "getString typed_store (storage_set typed_store s k v) k = Some v"
    by (simp add: typed_store_ops map_of_store_put)
  have "map_of (storage_set typed_store s k v) k = Some (StoredString v)"
    by (simp add: c)
  from listed_key [OF this] d
  have e: "(k, Some v) \<in> set (getAll_entries typed_store (storage_set typed_store s k v))"
    by (simp add: read_entry_def)
  from a b c d e show ?thesis by blast
qed

theorem write_handler_witness:
  "set_listener typed_store key_only sample_store = (Inr (Bool False), sample_store)
   \<and> set_listener typed_store key_and_value sample_store =
       (Inr (Bool True),
        [(''n'', StoredNumber (IntNum 42)), (''b'', StoredBoolean True),
         (''a'', StoredString ''1''), (''s'', StoredString ''text'')])"
proof -
  have k: "p_key key_only = Some ''a''" "p_value key_only = None"
    "p_key key_and_value = Some ''a''" "p_value key_and_value = Some ''1''"
    by (simp_all add: key_only_def key_and_value_def)
  have p: "storage_set typed_store sample_store ''a'' ''1'' =
        [(''n'', StoredNumber (IntNum 42)), (''b'', StoredBoolean True),
         (''a'', StoredString ''1''), (''s'', StoredString ''text'')]"
    by (simp add: typed_store_ops sample_store_def)
  from k p write_handler [of key_only typed_store sample_store "''a''" "''1''" sample_store]
    write_handler [of key_and_value typed_store sample_store "''a''" "''1''" sample_store]
  show ?thesis by simp
qed

section \<open>The delete handler\<close>

text \<open>
  Claim C3. The delete handler (registered as \<open>remove\<close>) answers \<^verbatim>\<open>false\<close> and leaves
  the store alone when \<open>key\<close> is missing. With a key it answers \<^verbatim>\<open>true\<close> after one
  \<^verbatim>\<open>storage.remove(key)\<close>; on the typed store the key is then absent and every other
  key is as it was, and a key that was absent before leaves the store unchanged, still
  with the answer \<^verbatim>\<open>true\<close>.
\<close>

theorem delete_handler:
  "(p_key ps = None \<longrightarrow> remove_listener api ps st = (Inr (Bool False), st))
   \<and> (p_key ps = Some k \<longrightarrow>
        remove_listener api ps st = (Inr (Bool True), storage_remove api st k))
   \<and> map_of (storage_remove typed_store s k) = (map_of s)(k := None)
   \<and> getAllKeys typed_store (storage_remove typed_store s k)
        = Some (filter (\<lambda>x. x \<noteq> k) (map fst s))
   \<and> (p_key ps = Some k \<and> map_of s k = None \<longrightarrow>
        remove_listener typed_store ps s = (Inr (Bool True), s))"
proof -
  have a: "p_key ps = None \<longrightarrow> remove_listener api ps st = (Inr (Bool False), st)"
    by (simp add: remove_listener_def)
  have b: "p_key ps = Some k \<longrightarrow>
        remove_listener api ps st = (Inr (Bool True), storage_remove api st k)"
    by (simp add: remove_listener_def)
  have c: "map_of (storage_remove typed_store s k) = (map_of s)(k := None)"
    by (simp add: typed_store_ops map_of_store_delete)
  have d: "getAllKeys typed_store (storage_remove typed_store s k)
        = Some (filter (\<lambda>x. x \<noteq> k) (map fst s))"
    by (simp add: typed_store_ops keys_store_delete)
  have e: "p_key ps = Some k \<and> map_of s k = None \<longrightarrow>
        remove_listener typed_store ps s = (Inr (Bool True), s)"
    by (simp add: remove_listener_def typed_store_ops store_delete_absent)
  from a b c d e show ?thesis by blast
qed

theorem delete_handler_witness:
  "remove_listener typed_store no_params sample_store = (Inr (Bool False), sample_store)
   \<and> map_of infinite_store ''a'' = None
   \<and> remove_listener typed_store key_only infinite_store = (Inr (Bool True), infinite_store)
   \<and> remove_listener typed_store key_only sample_store =
       (Inr (Bool True),
        [(''n'', StoredNumber (IntNum 42)), (''b'', StoredBoolean True),
         (''s'', StoredString ''text'')])"
proof -
  have k: "p_key no_params = None" "p_key key_only = Some ''a''"
    by (simp_all add: no_params_def key_only_def)
  have m: "map_of infinite_store ''a'' = None"
    by (simp add: infinite_store_def)
  have p: "storage_remove typed_store sample_store ''a'' =
        [(''n'', StoredNumber (IntNum 42)), (''b'', StoredBoolean True),
         (''s'', StoredString ''text'')]"
    by (simp add: typed_store_ops sample_store_def)
  from k m p delete_handler [of no_params typed_store sample_store "''a''" sample_store]
    delete_handler [of key_only typed_store sample_store "''a''" infinite_store]
  show ?thesis by simp
qed

section \<open>The list handler\<close>

lemma read_entry_string:
  "getString api st k = Some s \<Longrightarrow> read_entry api st k = (k, Some s)"
  by (simp add: read_entry_def)

lemma read_entry_number:
  "getString api st k = None \<Longrightarrow> optional_call (getNumber api) st k = Some n \<Longrightarrow> n \<noteq> NaN
     \<Longrightarrow> read_entry api st k = (k, Some (number_to_string n))"
  by (simp add: read_entry_def isNaN_def)

lemma read_entry_boolean:
  "getString api st k = None
     \<Longrightarrow> optional_call (getNumber api) st k = None \<or> optional_call (getNumber api) st k = Some NaN
     \<Longrightarrow> optional_call (getBoolean api) st k = Some b
     \<Longrightarrow> read_entry api st k = (k, Some (boolean_to_string b))"
  by (auto simp add: read_entry_def isNaN_def)

lemma read_entry_absent:
  "getString api st k = None
     \<Longrightarrow> optional_call (getNumber api) st k = None \<or> optional_call (getNumber api) st k = Some NaN
     \<Longrightarrow> optional_call (getBoolean api) st k = None
     \<Longrightarrow> read_entry api st k = (k, None)"
  by (auto simp add: read_entry_def isNaN_def)

lemma fst_read_entry: "fst (read_entry api st k) = k"
  by (simp add: read_entry_def split: option.split)

lemma keys_of_entries:
  "map fst (getAll_entries api st) = (case getAllKeys api st of None \<Rightarrow> [] | Some ks \<Rightarrow> ks)"
  by (simp add: getAll_entries_def comp_def fst_read_entry)

text \<open>
  Claim C4, as stated, at a key that holds the number \<^verbatim>\<open>Infinity\<close>: the numeric read
  yields a number that is not finite, and the key is listed with the text \<open>Infinity\<close>.
\<close>

theorem infinite_number_counterexample:
  "optional_call (getNumber typed_store) infinite_store ''k'' = Some PosInfinity
   \<and> \<not> isFinite PosInfinity
   \<and> getAll_entries typed_store infinite_store = [(''k'', Some ''Infinity'')]"
  by (simp add: typed_store_ops entries_typed_store read_entry_def infinite_store_def
      isFinite_def isNaN_def)

text \<open>
  Claim C4, amended. The list handler (registered as \<open>getAll\<close>) resolves, never rejects,
  and leaves the store alone. Its rows follow the keys of \<^verbatim>\<open>getAllKeys()\<close> in their
  order, with no rows when that is nullish. The value of a row is the string read when
  there is one; else the text of the numeric read when that is a number other than
  \<^verbatim>\<open>NaN\<close> (so \<^verbatim>\<open>Infinity\<close> and \<^verbatim>\<open>-Infinity\<close> are listed); else the text of
  the boolean read when there is one; else absent.
\<close>

theorem list_handler:
  "getAll_listener api ps st = (Inr (Arr (map entry_value (getAll_entries api st))), st)
   \<and> getAll_entries api st =
       map (read_entry api st) (case getAllKeys api st of None \<Rightarrow> [] | Some ks \<Rightarrow> ks)
   \<and> map fst (getAll_entries api st) = (case getAllKeys api st of None \<Rightarrow> [] | Some ks \<Rightarrow> ks)
   \<and> (\<forall>s. getString api st k = Some s \<longrightarrow> read_entry api st k = (k, Some s))
   \<and> (\<forall>n. getString api st k = None \<and> optional_call (getNumber api) st k = Some n \<and> n \<noteq> NaN
         \<longrightarrow> read_entry api st k = (k, Some (number_to_string n)))
   \<and> (\<forall>b. getString api st k = None
           \<and> (optional_call (getNumber api) st k = None
              \<or> optional_call (getNumber api) st k = Some NaN)
           \<and> optional_call (getBoolean api) st k = Some b
         \<longrightarrow> read_entry api st k = (k, Some (boolean_to_string b)))
   \<and> (getString api st k = None
         \<and> (optional_call (getNumber api) st k = None
            \<or> optional_call (getNumber api) st k = Some NaN)
         \<and> optional_call (getBoolean api) st k = None
       \<longrightarrow> read_entry api st k = (k, None))"
proof -
  have "getAll_listener api ps st = (Inr (Arr (map entry_value (getAll_entries api st))), st)"
    by (simp add: getAll_listener_def)
  moreover have "getAll_entries api st =
       map (read_entry api st) (case getAllKeys api st of None \<Rightarrow> [] | Some ks \<Rightarrow> ks)"
    by (simp add: getAll_entries_def)
  moreover note keys_of_entries [of api st]
  moreover have "\<forall>s. getString api st k = Some s \<longrightarrow> read_entry api st k = (k, Some s)"
    by (simp add: read_entry_string)
  moreover have "\<forall>n. getString api st k = None \<and> optional_call (getNumber api) st k = Some n
         \<and> n \<noteq> NaN \<longrightarrow> read_entry api st k = (k, Some (number_to_string n))"
    by (simp add: read_entry_number)
  moreover have "\<forall>b. getString api st k = None
           \<and> (optional_call (getNumber api) st k = None
              \<or> optional_call (getNumber api) st k = Some NaN)
           \<and> optional_call (getBoolean api) st k = Some b
         \<longrightarrow> read_entry api st k = (k, Some (boolean_to_string b))"
    using read_entry_boolean [of api st k] by blast
  moreover have "getString api st k = None
         \<and> (optional_call (getNumber api) st k = None
            \<or> optional_call (getNumber api) st k = Some NaN)
         \<and> optional_call (getBoolean api) st k = None
       \<longrightarrow> read_entry api st k = (k, None)"
    using read_entry_absent [of api st k] by blast
  ultimately show ?thesis by blast
qed

theorem list_handler_witness:
  "getAll_entries typed_store sample_store =
     [(''n'', Some ''42''), (''b'', Some ''true''), (''a'', None), (''s'', Some ''text'')]
   \<and> optional_call (getNumber typed_store) sample_store ''a'' = Some NaN
   \<and> getAll_listener typed_store no_params sample_store =
       (Inr (Arr [Arr [Str ''n'', Str ''42''], Arr [Str ''b'', Str ''true''],
                  Arr [Str ''a'', Undefined], Arr [Str ''s'', Str ''text'']]), sample_store)"
proof -
  have keys: "getAllKeys typed_store sample_store = Some [''n'', ''b'', ''a'', ''s'']"
    by (simp add: typed_store_ops sample_store_def)
  have n: "getString typed_store sample_store ''n'' = None"
    "optional_call (getNumber typed_store) sample_store ''n'' = Some (IntNum 42)"
    by (simp_all add: typed_store_ops sample_store_def)
  have b: "getString typed_store sample_store ''b'' = None"
    "optional_call (getNumber typed_store) sample_store ''b'' = None"
    "optional_call (getBoolean typed_store) sample_store ''b'' = Some True"
    by (simp_all add: typed_store_ops sample_store_def)
  have a: "getString typed_store sample_store ''a'' = None"
    "optional_call (getNumber typed_store) sample_store ''a'' = Some NaN"
    "optional_call (getBoolean typed_store) sample_store ''a'' = None"
    by (simp_all add: typed_store_ops sample_store_def)
  have s: "getString typed_store sample_store ''s'' = Some ''text''"
    by (simp add: typed_store_ops sample_store_def)
  have rn: "read_entry typed_store sample_store ''n'' = (''n'', Some ''42'')"
    using n list_handler [of typed_store no_params sample_store "''n''"]
    by (simp add: nat_digits.simps)
  have rb: "read_entry typed_store sample_store ''b'' = (''b'', Some ''true'')"
    using b list_handler [of typed_store no_params sample_store "''b''"] by auto
  have ra: "read_entry typed_store sample_store ''a'' = (''a'', None)"
    using a list_handler [of typed_store no_params sample_store "''a''"] by simp
  have rs: "read_entry typed_store sample_store ''s'' = (''s'', Some ''text'')"
    using s list_handler [of typed_store no_params sample_store "''s''"] by simp
  have rows: "getAll_entries typed_store sample_store =
     [(''n'', Some ''42''), (''b'', Some ''true''), (''a'', None), (''s'', Some ''text'')]"
    using keys rn rb ra rs list_handler [of typed_store no_params sample_store "''n''"]
    by simp
  from rows a(2) list_handler [of typed_store no_params sample_store "''n''"]
  show ?thesis by simp
qed

section \<open>Numbers and booleans are listed as text\<close>

text \<open>
  Claim C5. On the typed store, a key that holds the number 42 is listed with the string
  \<open>42\<close>, and a key that holds the boolean \<^verbatim>\<open>true\<close> is listed with the string
  \<open>true\<close>.
\<close>

theorem typed_values_flatten:
  "(map_of st k = Some (StoredNumber (IntNum 42)) \<longrightarrow>
      (k, Some ''42'') \<in> set (getAll_entries typed_store st)
      \<and> Arr [Str k, Str ''42''] \<in> set (map entry_value (getAll_entries typed_store st)))
   \<and> (map_of st k = Some (StoredBoolean True) \<longrightarrow>
      (k, Some ''true'') \<in> set (getAll_entries typed_store st)
      \<and> Arr [Str k, Str ''true''] \<in> set (map entry_value (getAll_entries typed_store st)))
   \<and> fst (getAll_listener typed_store ps st)
        = Inr (Arr (map entry_value (getAll_entries typed_store st)))"
proof -
  have num: "(k, Some ''42'') \<in> set (getAll_entries typed_store st)
      \<and> Arr [Str k, Str ''42''] \<in> set (map entry_value (getAll_entries typed_store st))"
    if h: "map_of st k = Some (StoredNumber (IntNum 42))"
  proof -
    have "read_entry typed_store st k = (k, Some ''42'')"
      using h by (simp add: read_entry_def typed_store_ops isNaN_def nat_digits.simps)
    with listed_key [OF h] have m: "(k, Some ''42'') \<in> set (getAll_entries typed_store st)"
      by simp
    then have "entry_value (k, Some ''42'') \<in> entry_value ` set (getAll_entries typed_store st)"
      by (rule imageI)
    with m show ?thesis by simp
  qed
  have bool: "(k, Some ''true'') \<in> set (getAll_entries typed_store st)
      \<and> Arr [Str k, Str ''true''] \<in> set (map entry_value (getAll_entries typed_store st))"
    if h: "map_of st k = Some (StoredBoolean True)"
  proof -
    have "read_entry typed_store st k = (k, Some ''true'')"
      using h by (simp add: read_entry_def typed_store_ops)
    with listed_key [OF h] have m: "(k, Some ''true'') \<in> set (getAll_entries typed_store st)"
      by simp
    then have "entry_value (k, Some ''true'') \<in> entry_value ` set (getAll_entries typed_store st)"
      by (rule imageI)
    with m show ?thesis by simp
  qed
  have "fst (getAll_listener typed_store ps st)
        = Inr (Arr (map entry_value (getAll_entries typed_store st)))"
    by (simp add: getAll_listener_def)
  with num bool show ?thesis by blast
qed

theorem typed_values_flatten_witness:
  "map_of sample_store ''n'' = Some (StoredNumber (IntNum 42))
   \<and> map_of sample_store ''b'' = Some (StoredBoolean True)
   \<and> (''n'', Some ''42'') \<in> set (getAll_entries typed_store sample_store)
   \<and> (''b'', Some ''true'') \<in> set (getAll_entries typed_store sample_store)"
proof -
  have n: "map_of sample_store ''n'' = Some (StoredNumber (IntNum 42))"
    by (simp add: sample_store_def)
  have b: "map_of sample_store ''b'' = Some (StoredBoolean True)"
    by (simp add: sample_store_def)
  from n b typed_values_flatten [of sample_store "''n''" no_params]
    typed_values_flatten [of sample_store "''b''" no_params]
  show ?thesis by simp
qed

end
